theory Spec2Isabelle
  imports Main
begin

section \<open>JavaScript values shared by the function and the page script\<close>

text \<open>
  Strings are byte strings (UTF-8). An optional string stands for a JavaScript value that
  is either a string or \<^verbatim>\<open>undefined\<close>/\<^verbatim>\<open>null\<close>. Such a value is falsy when it is
  missing or the empty string; this is what \<^verbatim>\<open>!x\<close>, \<^verbatim>\<open>x ? a : b\<close> and \<^verbatim>\<open>x || d\<close> test.
\<close>

fun truthy :: "string option \<Rightarrow> bool" where
  "truthy None = False"
| "truthy (Some s) = (s \<noteq> [])"

text \<open>\<^verbatim>\<open>x || d\<close> with a string default, and \<^verbatim>\<open>x || y\<close> between two optional strings.\<close>

fun or_default :: "string option \<Rightarrow> string \<Rightarrow> string" where
  "or_default None d = d"
| "or_default (Some s) d = (if s = [] then d else s)"

fun js_or :: "string option \<Rightarrow> string option \<Rightarrow> string option" where
  "js_or None y = y"
| "js_or (Some s) y = (if s = [] then y else Some s)"

text \<open>
  The outcome of an awaited promise: rejected with an error whose \<^verbatim>\<open>message\<close> is kept,
  or fulfilled with a value.
\<close>

datatype 'a js_result = Throws string | Returns 'a

text \<open>
  What \<^verbatim>\<open>fetch\<close> resolves to: the status, and what \<^verbatim>\<open>text()\<close> and \<^verbatim>\<open>json()\<close>
  settle to when they are awaited. \<^verbatim>\<open>ok\<close> is the Fetch API's flag for a status in
  the range 200 to 299.
\<close>

record 'd response =
  resp_status :: nat
  resp_text :: "string js_result"
  resp_json :: "'d js_result"

definition ok :: "'d response \<Rightarrow> bool" where
  "ok r = (200 \<le> resp_status r \<and> resp_status r \<le> 299)"

subsection \<open>\<^verbatim>\<open>URLSearchParams(...).toString()\<close>\<close>

text \<open>
  The serializer of the URL standard for \<^verbatim>\<open>application/x-www-form-urlencoded\<close>: ASCII
  letters and digits and the bytes \<^verbatim>\<open>* - . _\<close> stay, a space becomes \<^verbatim>\<open>+\<close>, every
  other byte becomes \<^verbatim>\<open>%\<close> and two upper-case hexadecimal digits. Pairs are joined by
  \<^verbatim>\<open>&\<close>, in the order of the object's keys.
\<close>

definition hex_digit :: "nat \<Rightarrow> char" where
  "hex_digit n = ''0123456789ABCDEF'' ! (n mod 16)"

definition form_safe :: "char \<Rightarrow> bool" where
  "form_safe c =
     (let n = (of_char c :: nat)
      in (48 \<le> n \<and> n \<le> 57) \<or> (65 \<le> n \<and> n \<le> 90) \<or> (97 \<le> n \<and> n \<le> 122)
         \<or> c \<in> set ''*-._'')"

definition form_encode_char :: "char \<Rightarrow> string" where
  "form_encode_char c =
     (if form_safe c then [c]
      else if c = CHR '' '' then ''+''
      else [CHR ''%'', hex_digit (of_char c div 16), hex_digit (of_char c mod 16)])"

definition form_encode :: "string \<Rightarrow> string" where
  "form_encode s = concat (map form_encode_char s)"

fun URLSearchParams_toString :: "(string \<times> string) list \<Rightarrow> string" where
  "URLSearchParams_toString [] = []"
| "URLSearchParams_toString [(k, v)] = form_encode k @ ''='' @ form_encode v"
| "URLSearchParams_toString ((k, v) # kvs) =
     form_encode k @ ''='' @ form_encode v @ ''&'' @ URLSearchParams_toString kvs"

section \<open>The function \<^verbatim>\<open>netlify/functions/tmdb.js\<close>\<close>

text \<open>
  JSON values, as \<^verbatim>\<open>resp.json()\<close> decodes them and \<^verbatim>\<open>JSON.stringify\<close> writes them.
  The handler never looks into a decoded value; numbers are kept as integers.
\<close>

datatype json =
    JNull
  | JBool bool
  | JNum int
  | JStr string
  | JArr "json list"
  | JObj "(string \<times> json) list"

text \<open>
  The \<^verbatim>\<open>body\<close> of a returned envelope is a string: either \<^verbatim>\<open>JSON.stringify\<close> of a
  value, kept here as the value that was serialized, or a text passed on as received.
\<close>

datatype body_text = JSON_stringify json | Text string

text \<open>
  The object the handler returns. The properties \<^verbatim>\<open>statusCode\<close> and \<^verbatim>\<open>body\<close> are
  always set; \<^verbatim>\<open>headers\<close> is set on some paths only.
\<close>

record envelope =
  statusCode :: nat
  body :: body_text
  headers :: "(string \<times> string) list option"

text \<open>
  The inbound event: \<^verbatim>\<open>event.queryStringParameters\<close> may be missing, and is otherwise
  an object from parameter names to strings.
\<close>

record event =
  queryStringParameters :: "(string \<rightharpoonup> string) option"

definition error_body :: "string \<Rightarrow> body_text" where
  "error_body msg = JSON_stringify (JObj [(''error'', JStr msg)])"

text \<open>
  Lines 21 and 22: \<^verbatim>\<open>event.queryStringParameters || {}\<close> and
  \<^verbatim>\<open>qs.type || "discover"\<close>.
\<close>

definition qs_of :: "event \<Rightarrow> (string \<rightharpoonup> string)" where
  "qs_of ev = (case queryStringParameters ev of None \<Rightarrow> Map.empty | Some m \<Rightarrow> m)"

definition query_type :: "(string \<rightharpoonup> string) \<Rightarrow> string" where
  "query_type qs = or_default (qs ''type'') ''discover''"

text \<open>
  Lines 30 to 39, the discover branch. The constant \<^verbatim>\<open>limit\<close> of line 31 is read from
  \<^verbatim>\<open>qs.limit\<close> and never used afterwards, so it has no counterpart here.
\<close>

definition discover_url :: "string \<Rightarrow> (string \<rightharpoonup> string) \<Rightarrow> string" where
  "discover_url apiKey qs =
     (let genre = qs ''genre'';
          params = URLSearchParams_toString
            [(''api_key'', apiKey),
             (''with_genres'', or_default genre []),
             (''sort_by'', or_default (qs ''sort_by'') ''popularity.desc''),
             (''page'', ''1'')]
      in ''https://api.themoviedb.org/3/discover/movie?'' @ params)"

definition movieId_required :: envelope where
  "movieId_required =
     \<lparr>statusCode = 400, body = error_body ''movieId required'', headers = None\<rparr>"

definition unknown_type :: envelope where
  "unknown_type = \<lparr>statusCode = 400, body = error_body ''Unknown type'', headers = None\<rparr>"

text \<open>
  Lines 27 to 50: the variable \<^verbatim>\<open>targetUrl\<close> on the right, or on the left the envelope
  of an early \<^verbatim>\<open>return\<close>.
\<close>

definition targetUrl :: "string \<Rightarrow> (string \<rightharpoonup> string) \<Rightarrow> envelope + string" where
  "targetUrl apiKey qs =
     (let type = query_type qs in
      if type = ''discover'' then Inr (discover_url apiKey qs)
      else if type = ''videos'' then
        (case qs ''movieId'' of
           None \<Rightarrow> Inl movieId_required
         | Some movieId \<Rightarrow>
             if movieId = [] then Inl movieId_required
             else Inr (''https://api.themoviedb.org/3/movie/'' @ movieId
                         @ ''/videos?api_key='' @ apiKey))
      else if type = ''movie'' then
        (case qs ''movieId'' of
           None \<Rightarrow> Inl movieId_required
         | Some movieId \<Rightarrow>
             if movieId = [] then Inl movieId_required
             else Inr (''https://api.themoviedb.org/3/movie/'' @ movieId
                         @ ''?api_key='' @ apiKey))
      else Inl unknown_type)"

text \<open>
  Lines 53 to 66 and the \<^verbatim>\<open>catch\<close> of lines 67 to 72: the upstream call and the
  translation of what it settles to. The second component is the list of the URLs that
  were requested.
\<close>

definition caught :: "string \<Rightarrow> envelope" where
  "caught msg = \<lparr>statusCode = 500, body = error_body msg, headers = None\<rparr>"

definition call_upstream ::
  "(string \<Rightarrow> json response js_result) \<Rightarrow> (string \<times> string) list \<Rightarrow> string
     \<Rightarrow> envelope \<times> string list" where
  "call_upstream fetch hdrs url =
     (case fetch url of
        Throws msg \<Rightarrow> (caught msg, [url])
      | Returns resp \<Rightarrow>
          if \<not> ok resp then
            (case resp_text resp of
               Throws msg \<Rightarrow> (caught msg, [url])
             | Returns txt \<Rightarrow>
                 (\<lparr>statusCode = resp_status resp, body = Text txt, headers = Some hdrs\<rparr>,
                  [url]))
          else
            (case resp_json resp of
               Throws msg \<Rightarrow> (caught msg, [url])
             | Returns data \<Rightarrow>
                 (\<lparr>statusCode = 200, body = JSON_stringify data,
                   headers = Some (hdrs @ [(''Access-Control-Allow-Origin'', ''*'')])\<rparr>,
                  [url])))"

text \<open>
  \<^verbatim>\<open>exports.handler\<close>. The first argument is \<^verbatim>\<open>process.env.TMDB_API_KEY\<close>, the second
  the global \<^verbatim>\<open>fetch\<close>. The result is the returned envelope and the upstream requests
  made on the way.
\<close>

definition not_set :: envelope where
  "not_set =
     \<lparr>statusCode = 500,
      body = error_body ''TMDB_API_KEY not set in environment variables'',
      headers = None\<rparr>"

definition handler ::
  "string option \<Rightarrow> (string \<Rightarrow> json response js_result) \<Rightarrow> event
     \<Rightarrow> envelope \<times> string list" where
  "handler env_TMDB_API_KEY fetch ev =
     (case env_TMDB_API_KEY of
        None \<Rightarrow> (not_set, [])
      | Some apiKey \<Rightarrow>
          if apiKey = [] then (not_set, [])
          else
            let qs = qs_of ev;
                hdrs = [(''Content-Type'', ''application/json'')]
            in (case targetUrl apiKey qs of
                  Inl early \<Rightarrow> (early, [])
                | Inr url \<Rightarrow> call_upstream fetch hdrs url))"

section \<open>The page script \<^verbatim>\<open>script.js\<close>\<close>

subsection \<open>Constants and helpers\<close>

record genre =
  genre_id :: nat
  genre_name :: string

definition GENRES :: "genre list" where
  "GENRES =
     [\<lparr>genre_id = 878, genre_name = ''AI''\<rparr>,
      \<lparr>genre_id = 528, genre_name = ''Food''\<rparr>,
      \<lparr>genre_id = 18, genre_name = ''Drama''\<rparr>,
      \<lparr>genre_id = 27, genre_name = ''Horror''\<rparr>,
      \<lparr>genre_id = 35, genre_name = ''Comedy''\<rparr>]"

definition IMAGE_BASE :: string where
  "IMAGE_BASE = ''https://image.tmdb.org/t/p/w500''"

definition YT_EMBED :: "string \<Rightarrow> string \<Rightarrow> string" where
  "YT_EMBED key params =
     ''https://www.youtube.com/embed/'' @ key @ ''?rel=0&enablejsapi=1&playsinline=1&'' @ params"

text \<open>
  The decimal form a non-negative integer takes when \<^verbatim>\<open>URLSearchParams\<close> turns a
  number into a string. Identifiers are natural numbers.
\<close>

definition digit_char :: "nat \<Rightarrow> char" where
  "digit_char n = ''0123456789'' ! (n mod 10)"

function String_of_nat :: "nat \<Rightarrow> string" where
  "String_of_nat n =
     (if n < 10 then [digit_char n] else String_of_nat (n div 10) @ [digit_char (n mod 10)])"
  by pat_completeness auto
termination
  by (relation "measure id") auto

text \<open>
  \<^verbatim>\<open>tmdbFetch\<close>, lines 19 to 25, in its two halves: the URL it requests, and what it
  makes of the answer once \<^verbatim>\<open>fetch\<close> has settled.
\<close>

definition tmdbFetch_url :: "(string \<times> string) list \<Rightarrow> string" where
  "tmdbFetch_url qs = ''/.netlify/functions/tmdb?'' @ URLSearchParams_toString qs"

definition tmdbFetch_settle :: "'d response js_result \<Rightarrow> 'd js_result" where
  "tmdbFetch_settle r =
     (case r of
        Throws msg \<Rightarrow> Throws msg
      | Returns res \<Rightarrow> if \<not> ok res then Throws ''TMDb function error'' else resp_json res)"

text \<open>
  The decoded body is an object whose \<^verbatim>\<open>results\<close> may be missing;
  \<^verbatim>\<open>data.results || []\<close> then stands for the empty list.
\<close>

record 'a data =
  results :: "'a list option"

definition results_or_empty :: "'a data \<Rightarrow> 'a list" where
  "results_or_empty d = (case results d of None \<Rightarrow> [] | Some xs \<Rightarrow> xs)"

record video =
  video_site :: string
  video_type :: string
  video_key :: string

record movie =
  movie_id :: nat
  title :: "string option"
  name :: "string option"
  overview :: "string option"
  poster_path :: "string option"
  backdrop_path :: "string option"

text \<open>\<^verbatim>\<open>Array.prototype.find\<close>; \<open>None\<close> is \<^verbatim>\<open>undefined\<close>.\<close>

fun array_find :: "('a \<Rightarrow> bool) \<Rightarrow> 'a list \<Rightarrow> 'a option" where
  "array_find p [] = None"
| "array_find p (x # xs) = (if p x then Some x else array_find p xs)"

text \<open>The predicates of line 126 (hero) and of line 81 (card).\<close>

definition hero_accepts :: "video \<Rightarrow> bool" where
  "hero_accepts v =
     (video_site v = ''YouTube'' \<and> (video_type v = ''Trailer'' \<or> video_type v = ''Teaser''))"

definition card_accepts :: "video \<Rightarrow> bool" where
  "card_accepts v =
     (video_site v = ''YouTube''
      \<and> (video_type v = ''Trailer'' \<or> video_type v = ''Teaser'' \<or> video_type v = ''Clip''))"

definition hero_select :: "video data \<Rightarrow> video option" where
  "hero_select d = array_find hero_accepts (results_or_empty d)"

definition card_select :: "video data \<Rightarrow> video option" where
  "card_select d = array_find card_accepts (results_or_empty d)"

text \<open>The request for the videos of a movie, made at line 80 and at line 125.\<close>

definition videos_url :: "movie \<Rightarrow> string" where
  "videos_url m =
     tmdbFetch_url [(''type'', ''videos''), (''movieId'', String_of_nat (movie_id m))]"

subsection \<open>The poster card and its hover preview\<close>

text \<open>The element \<^verbatim>\<open>createPosterCard\<close> builds, lines 56 to 68.\<close>

record poster =
  dataset_id :: nat
  img_src :: string
  img_alt :: "string option"
  title_text :: "string option"

definition createPosterCard :: "movie \<Rightarrow> poster" where
  "createPosterCard m =
     \<lparr>dataset_id = movie_id m,
      img_src = (case poster_path m of
                   None \<Rightarrow> []
                 | Some p \<Rightarrow> if p = [] then [] else IMAGE_BASE @ p),
      img_alt = js_or (title m) (name m),
      title_text = js_or (title m) (name m)\<rparr>"

text \<open>
  What the inner element of a preview frame holds: nothing yet (line 76), the iframe
  with its \<^verbatim>\<open>src\<close> (line 90), or one of the two notices (lines 93 and 96).
\<close>

datatype frame_inner =
    Placeholder
  | Iframe string
  | Preview_not_available
  | Preview_failed

text \<open>
  The state of one card's listeners, lines 71 to 107. \<open>previewTimer\<close> is the closure
  variable. \<open>timers\<close> are the timeouts that are armed and have not fired; a handle \<open>h\<close>
  stands for the positive integer \<open>h + 1\<close> that \<^verbatim>\<open>setTimeout\<close> returns, so every handle
  is truthy. \<open>preview_frames\<close> are the children of the card with class
  \<^verbatim>\<open>preview-frame\<close>, in document order; the frame created by the callback of timer \<open>h\<close>
  is called \<open>h\<close>. \<open>frame_content\<close> holds the inner element of every frame created so
  far, attached or not. \<open>awaiting\<close> are the callbacks suspended at the \<^verbatim>\<open>await\<close> of
  line 80, and \<open>requested\<close> the URLs requested so far.
\<close>

record hover =
  previewTimer :: "nat option"
  timers :: "nat list"
  next_handle :: nat
  preview_frames :: "nat list"
  frame_content :: "nat \<rightharpoonup> frame_inner"
  awaiting :: "nat list"
  requested :: "string list"

definition hover_init :: hover where
  "hover_init =
     \<lparr>previewTimer = None, timers = [], next_handle = 0, preview_frames = [],
      frame_content = Map.empty, awaiting = [], requested = []\<rparr>"

text \<open>Lines 72, 73 and 98: the \<^verbatim>\<open>mouseenter\<close> listener arms a timeout.\<close>

definition mouseenter :: "hover \<Rightarrow> hover" where
  "mouseenter s =
     s\<lparr>previewTimer := Some (next_handle s),
       timers := timers s @ [next_handle s],
       next_handle := Suc (next_handle s)\<rparr>"

text \<open>
  Lines 74 to 80: the timeout \<open>h\<close> fires. Its callback creates a frame, appends it to the
  card and requests the videos. A timeout that is not armed cannot fire.
\<close>

definition timer_fired :: "movie \<Rightarrow> nat \<Rightarrow> hover \<Rightarrow> hover option" where
  "timer_fired m h s =
     (if h \<notin> set (timers s) then None
      else Some (s\<lparr>timers := removeAll h (timers s),
                   preview_frames := preview_frames s @ [h],
                   frame_content := (frame_content s)(h \<mapsto> Placeholder),
                   awaiting := awaiting s @ [h],
                   requested := requested s @ [videos_url m]\<rparr>))"

text \<open>
  Lines 81 to 97: the request of the callback \<open>h\<close> has settled. The callback writes into
  the frame it created, wherever that frame is by now.
\<close>

definition settled_inner :: "video data js_result \<Rightarrow> frame_inner" where
  "settled_inner outcome =
     (case outcome of
        Throws msg \<Rightarrow> Preview_failed
      | Returns d \<Rightarrow>
          (case card_select d of
             Some vid \<Rightarrow>
               Iframe (YT_EMBED (video_key vid)
                 (''autoplay=1&mute=1&controls=0&loop=1&playlist='' @ video_key vid))
           | None \<Rightarrow> Preview_not_available))"

definition fetch_settled :: "nat \<Rightarrow> video data response js_result \<Rightarrow> hover \<Rightarrow> hover option" where
  "fetch_settled h r s =
     (if h \<notin> set (awaiting s) then None
      else Some (s\<lparr>awaiting := remove1 h (awaiting s),
                   frame_content := (frame_content s)(h \<mapsto> settled_inner (tmdbFetch_settle r))\<rparr>))"

text \<open>
  Lines 100 to 107: the \<^verbatim>\<open>mouseleave\<close> listener clears the timeout held by
  \<open>previewTimer\<close>, whether it has fired or not, and removes the first preview frame of
  the card, which is the one \<^verbatim>\<open>querySelector\<close> finds.
\<close>

definition mouseleave :: "hover \<Rightarrow> hover" where
  "mouseleave s =
     (let s1 = (case previewTimer s of
                  Some h \<Rightarrow> s\<lparr>previewTimer := None, timers := removeAll h (timers s)\<rparr>
                | None \<Rightarrow> s)
      in case preview_frames s1 of
           [] \<Rightarrow> s1
         | frame # rest \<Rightarrow> s1\<lparr>preview_frames := rest\<rparr>)"

text \<open>What can happen to a card, one event after the other.\<close>

datatype hover_event =
    MouseEnter
  | MouseLeave
  | TimerFired nat
  | FetchSettled nat "video data response js_result"

fun step :: "movie \<Rightarrow> hover_event \<Rightarrow> hover \<Rightarrow> hover option" where
  "step m MouseEnter s = Some (mouseenter s)"
| "step m MouseLeave s = Some (mouseleave s)"
| "step m (TimerFired h) s = timer_fired m h s"
| "step m (FetchSettled h r) s = fetch_settled h r s"

fun run :: "movie \<Rightarrow> hover_event list \<Rightarrow> hover \<Rightarrow> hover option" where
  "run m [] s = Some s"
| "run m (e # es) s = (case step m e s of None \<Rightarrow> None | Some s' \<Rightarrow> run m es s')"

text \<open>
  The card is idle: no timeout is held or armed, and no preview frame is in the card.
\<close>

definition idle :: "hover \<Rightarrow> bool" where
  "idle s = (previewTimer s = None \<and> timers s = [] \<and> preview_frames s = [])"

subsection \<open>The document: the hero and the rows\<close>

datatype hero_child =
    Hero_iframe string
  | Hero_poster string

datatype track_child =
    Card poster
  | Message string

record row =
  row_title :: string
  track :: "track_child list"

text \<open>
  The parts of the page the script writes to: the text of \<^verbatim>\<open>heroTitle\<close> and of
  \<^verbatim>\<open>heroOverview\<close>, the children of \<^verbatim>\<open>heroVideoContainer\<close> (an iframe with its
  \<^verbatim>\<open>src\<close>, or the poster with its \<^verbatim>\<open>backgroundImage\<close>), the rows appended to
  \<^verbatim>\<open>rowsContainer\<close>, the lines written with \<^verbatim>\<open>console.error\<close>, and the URLs
  requested so far.
\<close>

record document =
  heroTitle :: string
  heroOverview :: string
  heroVideoContainer :: "hero_child list"
  rowsContainer :: "row list"
  console_error :: "string list"
  fetched :: "string list"





text \<open>
  \<^verbatim>\<open>makeRow\<close>, lines 28 to 52. The request is that of line 43; the track is filled
  with one card for each result, or by the \<^verbatim>\<open>catch\<close> with the message of line 50.
\<close>

definition row_url :: "genre \<Rightarrow> string" where
  "row_url g =
     tmdbFetch_url [(''type'', ''discover''), (''genre'', String_of_nat (genre_id g)),
                    (''limit'', ''20'')]"

definition row_track :: "genre \<Rightarrow> movie data js_result \<Rightarrow> track_child list" where
  "row_track g outcome =
     (case outcome of
        Returns dat \<Rightarrow> map (\<lambda>m. Card (createPosterCard m)) (results_or_empty dat)
      | Throws msg \<Rightarrow> [Message (''Failed to load '' @ genre_name g)])"

definition makeRow ::
  "(string \<Rightarrow> movie data response js_result) \<Rightarrow> genre \<Rightarrow> document \<Rightarrow> document" where
  "makeRow fetch g d =
     (let outcome = tmdbFetch_settle (fetch (row_url g))
      in d\<lparr>rowsContainer :=
             rowsContainer d @ [\<lparr>row_title = genre_name g, track = row_track g outcome\<rparr>],
           console_error :=
             (case outcome of
                Returns dat \<Rightarrow> console_error d
              | Throws msg \<Rightarrow> console_error d @ [''Failed to load row:'']),
           fetched := fetched d @ [row_url g]\<rparr>)"

text \<open>
  The loop of \<^verbatim>\<open>init\<close>, lines 161 to 163: one row after the other, each awaited before
  the next begins.
\<close>

fun makeRows ::
  "(string \<Rightarrow> movie data response js_result) \<Rightarrow> genre list \<Rightarrow> document \<Rightarrow> document" where
  "makeRows fetch [] d = d"
| "makeRows fetch (g # gs) d = makeRows fetch gs (makeRow fetch g d)"

definition init_rows ::
  "(string \<Rightarrow> movie data response js_result) \<Rightarrow> document \<Rightarrow> document" where
  "init_rows fetch d = makeRows fetch GENRES d"

text \<open>
  The same loop, one event at a time. \<^verbatim>\<open>makeRow\<close> falls into two halves around the
  \<^verbatim>\<open>await\<close> of line 43: lines 29 to 43 append the row with an empty track and request
  the page, lines 44 to 51 fill the track once the request has settled. The second half
  writes to the track element it holds; here that element is the row at the position
  where the first half appended it, and rows are never removed.
\<close>

definition makeRow_begin :: "genre \<Rightarrow> document \<Rightarrow> document" where
  "makeRow_begin g d =
     d\<lparr>rowsContainer := rowsContainer d @ [\<lparr>row_title = genre_name g, track = []\<rparr>],
       fetched := fetched d @ [row_url g]\<rparr>"

definition makeRow_end :: "genre \<Rightarrow> nat \<Rightarrow> movie data js_result \<Rightarrow> document \<Rightarrow> document" where
  "makeRow_end g i outcome d =
     (if length (rowsContainer d) \<le> i then d
      else
        let r = rowsContainer d ! i
        in d\<lparr>rowsContainer :=
               (rowsContainer d)
                 [i := r\<lparr>track :=
                          (case outcome of
                             Returns dat \<Rightarrow>
                               track r @ map (\<lambda>m. Card (createPosterCard m)) (results_or_empty dat)
                           | Throws msg \<Rightarrow> [Message (''Failed to load '' @ genre_name g)])\<rparr>],
             console_error :=
               (case outcome of
                  Returns dat \<Rightarrow> console_error d
                | Throws msg \<Rightarrow> console_error d @ [''Failed to load row:''])\<rparr>)"

text \<open>
  The state of the loop while it runs: the document, the \<^verbatim>\<open>makeRow\<close> that is suspended
  at its \<^verbatim>\<open>await\<close> (its genre and the position of its row), the genres the loop has not
  reached yet, every request with the time in milliseconds at which it was made, and the
  time of the last event.
\<close>

record loading =
  page :: document
  pending :: "(genre \<times> nat) option"
  remaining :: "genre list"
  issued :: "(string \<times> nat) list"
  clock :: nat

text \<open>
  Lines 161 to 163: the loop takes the next genre and runs \<^verbatim>\<open>makeRow\<close> up to its
  \<^verbatim>\<open>await\<close>, at time \<open>t\<close>; when no genre is left the loop is over.
\<close>

definition next_row :: "nat \<Rightarrow> loading \<Rightarrow> loading" where
  "next_row t s =
     (case remaining s of
        [] \<Rightarrow> s\<lparr>pending := None, clock := t\<rparr>
      | g # gs \<Rightarrow>
          s\<lparr>page := makeRow_begin g (page s),
            pending := Some (g, length (rowsContainer (page s))),
            remaining := gs,
            issued := issued s @ [(row_url g, t)],
            clock := t\<rparr>)"

definition init_start :: "nat \<Rightarrow> document \<Rightarrow> loading" where
  "init_start t d =
     next_row t \<lparr>page = d, pending = None, remaining = GENRES, issued = [], clock = t\<rparr>"

text \<open>
  At time \<open>t\<close> the request of the suspended \<^verbatim>\<open>makeRow\<close> settles with \<open>r\<close>: the row is
  filled and the loop goes on at once. Nothing settles when nothing is awaited, and time
  does not run backwards.
\<close>

definition row_settles ::
  "nat \<Rightarrow> movie data response js_result \<Rightarrow> loading \<Rightarrow> loading option" where
  "row_settles t r s =
     (case pending s of
        None \<Rightarrow> None
      | Some (g, i) \<Rightarrow>
          if t < clock s then None
          else Some (next_row t (s\<lparr>page := makeRow_end g i (tmdbFetch_settle r) (page s)\<rparr>)))"

fun run_loading ::
  "(nat \<times> movie data response js_result) list \<Rightarrow> loading \<Rightarrow> loading option" where
  "run_loading [] s = Some s"
| "run_loading ((t, r) # as) s =
     (case row_settles t r s of None \<Rightarrow> None | Some s' \<Rightarrow> run_loading as s')"

section \<open>Predicates and examples\<close>

text \<open>
  A query is valid when it reaches the upstream call: its type is \<^verbatim>\<open>discover\<close> (given
  or by default), or it is \<^verbatim>\<open>videos\<close> or \<^verbatim>\<open>movie\<close> and comes with a movie id.
\<close>

definition valid_query :: "(string \<rightharpoonup> string) \<Rightarrow> bool" where
  "valid_query qs =
     (query_type qs = ''discover''
      \<or> ((query_type qs = ''videos'' \<or> query_type qs = ''movie'') \<and> truthy (qs ''movieId'')))"

text \<open>
  Two upstreams to run the handler against: one that answers 404 with a text, and one
  that answers 200 with one result.
\<close>

definition upstream_not_found :: "string \<Rightarrow> json response js_result" where
  "upstream_not_found url =
     Returns \<lparr>resp_status = 404, resp_text = Returns ''Not Found'',
              resp_json = Throws ''Unexpected token N in JSON at position 0''\<rparr>"

definition upstream_results :: "string \<Rightarrow> json response js_result" where
  "upstream_results url =
     Returns \<lparr>resp_status = 200, resp_text = Returns [],
              resp_json = Returns (JObj [(''results'',
                JArr [JObj [(''id'', JNum 1), (''title'', JStr ''X'')]])])\<rparr>"

text \<open>
  A timeout that is not armed and whose handle has already been given out stays unarmed:
  later handles are larger.
\<close>

definition cancelled :: "nat \<Rightarrow> hover \<Rightarrow> bool" where
  "cancelled h s = (h \<notin> set (timers s) \<and> h < next_handle s)"

text \<open>A movie, a list of videos, and an answer to the videos request that carries it.\<close>

definition movie_example :: movie where
  "movie_example =
     \<lparr>movie_id = 603, title = Some ''The Matrix'', name = None, overview = Some ''A hacker.'',
      poster_path = Some ''/p.jpg'', backdrop_path = Some ''/b.jpg''\<rparr>"

definition videos_example :: "video list" where
  "videos_example =
     [\<lparr>video_site = ''Vimeo'', video_type = ''Trailer'', video_key = ''v1''\<rparr>,
      \<lparr>video_site = ''YouTube'', video_type = ''Teaser'', video_key = ''y2''\<rparr>,
      \<lparr>video_site = ''YouTube'', video_type = ''Trailer'', video_key = ''y3''\<rparr>]"

definition videos_response :: "video data response js_result" where
  "videos_response =
     Returns \<lparr>resp_status = 200, resp_text = Returns [],
              resp_json = Returns \<lparr>results = Some videos_example\<rparr>\<rparr>"

text \<open>
  The pointer is over the card, in the hover that armed the timeout \<open>h\<close>: the timeout has
  not fired and the card has no frame, or it has fired and the card has its frame alone.
\<close>

definition hovering :: "nat \<Rightarrow> hover \<Rightarrow> bool" where
  "hovering h s =
     (previewTimer s = Some h
      \<and> ((timers s = [h] \<and> preview_frames s = []) \<or> (timers s = [] \<and> preview_frames s = [h])))"

text \<open>
  A page before the script has written to it, a network that is down, an answer without
  videos, and an upstream for the rows where the request for the genre 528 alone fails.
\<close>

definition document_empty :: document where
  "document_empty =
     \<lparr>heroTitle = [], heroOverview = [], heroVideoContainer = [], rowsContainer = [],
      console_error = [], fetched = []\<rparr>"



definition rows_food_fails :: "string \<Rightarrow> movie data response js_result" where
  "rows_food_fails url =
     (if url = ''/.netlify/functions/tmdb?type=discover&genre=528&limit=20''
      then Returns \<lparr>resp_status = 500, resp_text = Returns [], resp_json = Throws []\<rparr>
      else Returns \<lparr>resp_status = 200, resp_text = Returns [],
                    resp_json = Returns \<lparr>results = Some [movie_example]\<rparr>\<rparr>)"

text \<open>Two answers to a row's request: one movie, and a status 500.\<close>

definition answer_one_movie :: "movie data response js_result" where
  "answer_one_movie =
     Returns \<lparr>resp_status = 200, resp_text = Returns [],
              resp_json = Returns \<lparr>results = Some [movie_example]\<rparr>\<rparr>"

definition answer_500 :: "movie data response js_result" where
  "answer_500 = Returns \<lparr>resp_status = 500, resp_text = Returns [], resp_json = Throws []\<rparr>"

section \<open>Properties\<close>

subsection \<open>The function\<close>

lemma truthy_cases: "truthy k \<longleftrightarrow> (\<exists>s. k = Some s \<and> s \<noteq> [])"
  by (cases k) auto

lemma valid_targetUrl: "valid_query qs \<Longrightarrow> \<exists>url. targetUrl apiKey qs = Inr url"
  by (auto simp: valid_query_def targetUrl_def truthy_cases)

lemma handler_set:
  "apiKey \<noteq> [] \<Longrightarrow> targetUrl apiKey (qs_of ev) = Inr url \<Longrightarrow>
   handler (Some apiKey) fetch ev = call_upstream fetch [(''Content-Type'', ''application/json'')] url"
  by (simp add: handler_def)

lemma handler_early:
  "apiKey \<noteq> [] \<Longrightarrow> targetUrl apiKey (qs_of ev) = Inl e \<Longrightarrow>
   handler (Some apiKey) fetch ev = (e, [])"
  by (simp add: handler_def)

lemma call_upstream_calls: "snd (call_upstream fetch hdrs url) = [url]"
  by (simp add: call_upstream_def split: js_result.splits)

lemma call_upstream_not_ok:
  "fetch url = Returns resp \<Longrightarrow> \<not> ok resp \<Longrightarrow> resp_text resp = Returns B \<Longrightarrow>
   call_upstream fetch hdrs url = (\<lparr>statusCode = resp_status resp, body = Text B, headers = Some hdrs\<rparr>, [url])"
  by (simp add: call_upstream_def)


text \<open>
  Claim C3. With the key set and a valid query (discover, or videos or movie with a
  movie id), exactly one upstream request is made; whenever its answer has a status
  outside 200 to 299 and a body text, the envelope carries that status and that text
  unchanged, and its headers are the content type alone: there is no
  \<^verbatim>\<open>Access-Control-Allow-Origin\<close> among them.
\<close>

theorem upstream_error_passthrough:
  assumes "truthy key" and "valid_query (qs_of ev)"
  shows "\<exists>url. snd (handler key fetch ev) = [url] \<and>
           (\<forall>resp B. fetch url = Returns resp \<and> \<not> ok resp \<and> resp_text resp = Returns B \<longrightarrow>
              fst (handler key fetch ev) =
                \<lparr>statusCode = resp_status resp, body = Text B,
                 headers = Some [(''Content-Type'', ''application/json'')]\<rparr>
              \<and> (\<forall>hs. headers (fst (handler key fetch ev)) = Some hs \<longrightarrow>
                    map_of hs ''Access-Control-Allow-Origin'' = None))"
proof -
  from assms(1) obtain apiKey where k: "key = Some apiKey" "apiKey \<noteq> []"
    by (auto simp: truthy_cases)
  from valid_targetUrl [OF assms(2)] obtain url where u: "targetUrl apiKey (qs_of ev) = Inr url"
    by blast
  have h: "handler key fetch ev = call_upstream fetch [(''Content-Type'', ''application/json'')] url"
    using k u by (simp add: handler_set)
  show ?thesis
  proof (intro exI [of _ url] conjI allI impI)
    show "snd (handler key fetch ev) = [url]" by (simp add: h call_upstream_calls)
  next
    fix resp B
    assume a: "fetch url = Returns resp \<and> \<not> ok resp \<and> resp_text resp = Returns B"
    then show "fst (handler key fetch ev) =
                \<lparr>statusCode = resp_status resp, body = Text B,
                 headers = Some [(''Content-Type'', ''application/json'')]\<rparr>"
      by (simp add: h call_upstream_not_ok)
  next
    fix resp B hs
    assume a: "fetch url = Returns resp \<and> \<not> ok resp \<and> resp_text resp = Returns B"
      and "headers (fst (handler key fetch ev)) = Some hs"
    then show "map_of hs ''Access-Control-Allow-Origin'' = None"
      by (simp add: h call_upstream_not_ok) auto
  qed
qed

theorem upstream_error_passthrough_witness:
  "fst (handler (Some ''k'') upstream_not_found
          \<lparr>queryStringParameters = Some [''type'' \<mapsto> ''videos'', ''movieId'' \<mapsto> ''12345'']\<rparr>)
   = \<lparr>statusCode = 404, body = Text ''Not Found'',
      headers = Some [(''Content-Type'', ''application/json'')]\<rparr>"
  using upstream_error_passthrough [of "Some ''k''"
      "\<lparr>queryStringParameters = Some [''type'' \<mapsto> ''videos'', ''movieId'' \<mapsto> ''12345'']\<rparr>"
      upstream_not_found]
  by (simp add: valid_query_def qs_of_def query_type_def upstream_not_found_def ok_def)

text \<open>
  Claim C4, as amended. Without the key (unset or empty) every event is answered with
  status 500 and the error \<^verbatim>\<open>TMDB_API_KEY not set in environment variables\<close>, and no
  upstream request is made.
\<close>

theorem credential_missing:
  assumes "\<not> truthy key"
  shows "handler key fetch ev =
           (\<lparr>statusCode = 500,
             body = JSON_stringify
               (JObj [(''error'', JStr ''TMDB_API_KEY not set in environment variables'')]),
             headers = None\<rparr>, [])"
  using assms by (cases key) (simp_all add: handler_def not_set_def error_body_def)

theorem credential_missing_witness:
  "\<not> truthy None \<and>
   handler None upstream_results \<lparr>queryStringParameters = Some [''type'' \<mapsto> ''discover'']\<rparr> =
           (\<lparr>statusCode = 500,
             body = JSON_stringify
               (JObj [(''error'', JStr ''TMDB_API_KEY not set in environment variables'')]),
             headers = None\<rparr>, [])"
  using credential_missing [of None upstream_results
      "\<lparr>queryStringParameters = Some [''type'' \<mapsto> ''discover'']\<rparr>"]
  by simp

theorem credential_missing_counterexample:
  "body (fst (handler None upstream_results \<lparr>queryStringParameters = None\<rparr>))
     \<noteq> JSON_stringify (JObj [(''error'', JStr ''credential not configured'')])"
  by (simp add: handler_def not_set_def error_body_def)

text \<open>
  Claim C5. With the key set, a query of type \<^verbatim>\<open>videos\<close> or \<^verbatim>\<open>movie\<close> whose
  \<^verbatim>\<open>movieId\<close> is missing (or empty) is answered with status 400 and the error
  \<^verbatim>\<open>movieId required\<close>, and no upstream request is made.
\<close>

theorem movieId_missing:
  assumes "apiKey \<noteq> []"
    and "query_type (qs_of ev) = ''videos'' \<or> query_type (qs_of ev) = ''movie''"
    and "\<not> truthy (qs_of ev ''movieId'')"
  shows "handler (Some apiKey) fetch ev =
           (\<lparr>statusCode = 400,
             body = JSON_stringify (JObj [(''error'', JStr ''movieId required'')]),
             headers = None\<rparr>, [])"
proof -
  have "targetUrl apiKey (qs_of ev) = Inl movieId_required"
    using assms(2,3) by (cases "qs_of ev ''movieId''") (auto simp: targetUrl_def)
  then show ?thesis
    using assms(1) by (simp add: handler_early movieId_required_def error_body_def)
qed

theorem movieId_missing_witness:
  "handler (Some ''k'') upstream_results \<lparr>queryStringParameters = Some [''type'' \<mapsto> ''movie'']\<rparr> =
           (\<lparr>statusCode = 400,
             body = JSON_stringify (JObj [(''error'', JStr ''movieId required'')]),
             headers = None\<rparr>, [])"
  using movieId_missing [of "''k''" "\<lparr>queryStringParameters = Some [''type'' \<mapsto> ''movie'']\<rparr>"
      upstream_results]
  by (simp add: qs_of_def query_type_def)



lemma unknown_type_neq_required: "unknown_type \<noteq> movieId_required"
  by (simp add: unknown_type_def movieId_required_def error_body_def)

lemma call_upstream_neq_unknown: "fst (call_upstream fetch [(''Content-Type'', ''application/json'')] url) \<noteq> unknown_type"
  by (simp add: call_upstream_def unknown_type_def caught_def split: js_result.splits)

lemma targetUrl_unknown:
  "targetUrl apiKey qs = Inl unknown_type \<longleftrightarrow>
     (\<exists>t. qs ''type'' = Some t \<and> t \<notin> {[], ''discover'', ''videos'', ''movie''})"
proof (cases "qs ''type''")
  case None
  then show ?thesis by (simp add: targetUrl_def query_type_def)
next
  case (Some t)
  then show ?thesis
    using unknown_type_neq_required [symmetric]
    by (auto simp: targetUrl_def query_type_def split: option.splits)
qed

lemma targetUrl_cong:
  assumes "qs ''type'' = qs' ''type''" "qs ''genre'' = qs' ''genre''"
    "qs ''sort_by'' = qs' ''sort_by''" "qs ''movieId'' = qs' ''movieId''"
  shows "targetUrl apiKey qs = targetUrl apiKey qs'"
  unfolding targetUrl_def query_type_def discover_url_def assms by (rule refl)

lemma handler_cong:
  assumes "qs_of ev ''type'' = qs_of ev' ''type''" "qs_of ev ''genre'' = qs_of ev' ''genre''"
    "qs_of ev ''sort_by'' = qs_of ev' ''sort_by''" "qs_of ev ''movieId'' = qs_of ev' ''movieId''"
  shows "handler key fetch ev = handler key fetch ev'"
  using targetUrl_cong [OF assms] by (simp add: handler_def Let_def split: option.splits)

text \<open>
  Claim C9. With the key set, an event without \<^verbatim>\<open>type\<close> requests the discover URL and
  is answered exactly as the same event with \<^verbatim>\<open>type=discover\<close>. The answer is status
  400 with the error \<^verbatim>\<open>Unknown type\<close> exactly when \<^verbatim>\<open>type\<close> is given, not empty, and
  none of \<^verbatim>\<open>discover\<close>, \<^verbatim>\<open>videos\<close>, \<^verbatim>\<open>movie\<close>.
\<close>

theorem missing_type_is_discover:
  assumes "apiKey \<noteq> []"
  shows "(qs_of ev ''type'' = None \<longrightarrow>
            snd (handler (Some apiKey) fetch ev) = [discover_url apiKey (qs_of ev)]
            \<and> handler (Some apiKey) fetch ev =
                handler (Some apiKey) fetch
                  \<lparr>queryStringParameters = Some ((qs_of ev)(''type'' \<mapsto> ''discover''))\<rparr>)
       \<and> (fst (handler (Some apiKey) fetch ev) =
            \<lparr>statusCode = 400,
             body = JSON_stringify (JObj [(''error'', JStr ''Unknown type'')]),
             headers = None\<rparr>
          \<longleftrightarrow> (\<exists>t. qs_of ev ''type'' = Some t
                    \<and> t \<notin> {[], ''discover'', ''videos'', ''movie''}))"
proof (intro conjI impI)
  assume n: "qs_of ev ''type'' = None"
  then have u: "targetUrl apiKey (qs_of ev) = Inr (discover_url apiKey (qs_of ev))"
    by (simp add: targetUrl_def query_type_def)
  show "snd (handler (Some apiKey) fetch ev) = [discover_url apiKey (qs_of ev)]"
    using assms u by (simp add: handler_set call_upstream_calls)
  let ?ev' = "\<lparr>queryStringParameters = Some ((qs_of ev)(''type'' \<mapsto> ''discover''))\<rparr>"
  have u': "targetUrl apiKey (qs_of ?ev') = Inr (discover_url apiKey (qs_of ev))"
    by (simp add: targetUrl_def query_type_def qs_of_def discover_url_def)
  show "handler (Some apiKey) fetch ev = handler (Some apiKey) fetch ?ev'"
    using assms u u' by (simp add: handler_set)
next
  have e: "\<lparr>statusCode = 400,
             body = JSON_stringify (JObj [(''error'', JStr ''Unknown type'')]),
             headers = None\<rparr> = unknown_type"
    by (simp add: unknown_type_def error_body_def)
  have "fst (handler (Some apiKey) fetch ev) = unknown_type
          \<longleftrightarrow> targetUrl apiKey (qs_of ev) = Inl unknown_type"
  proof (cases "targetUrl apiKey (qs_of ev)")
    case (Inl early)
    then show ?thesis using assms by (simp add: handler_early)
  next
    case (Inr url)
    then show ?thesis using assms by (simp add: handler_set call_upstream_neq_unknown)
  qed
  then show "fst (handler (Some apiKey) fetch ev) =
            \<lparr>statusCode = 400,
             body = JSON_stringify (JObj [(''error'', JStr ''Unknown type'')]),
             headers = None\<rparr>
          \<longleftrightarrow> (\<exists>t. qs_of ev ''type'' = Some t
                    \<and> t \<notin> {[], ''discover'', ''videos'', ''movie''})"
    unfolding e by (simp only: targetUrl_unknown)
qed

theorem missing_type_is_discover_witness:
  "handler (Some ''k'') upstream_results \<lparr>queryStringParameters = None\<rparr> =
     handler (Some ''k'') upstream_results
       \<lparr>queryStringParameters = Some [''type'' \<mapsto> ''discover'']\<rparr>
   \<and> fst (handler (Some ''k'') upstream_results
            \<lparr>queryStringParameters = Some [''type'' \<mapsto> ''search'']\<rparr>) =
       \<lparr>statusCode = 400,
        body = JSON_stringify (JObj [(''error'', JStr ''Unknown type'')]),
        headers = None\<rparr>"
  using missing_type_is_discover [of "''k''" "\<lparr>queryStringParameters = None\<rparr>" upstream_results]
    missing_type_is_discover [of "''k''"
      "\<lparr>queryStringParameters = Some [''type'' \<mapsto> ''search'']\<rparr>" upstream_results]
  by (simp add: qs_of_def)

text \<open>
  Claim C10. Two events whose parameters agree everywhere except at \<^verbatim>\<open>limit\<close> get the
  same envelope and cause the same upstream requests, for every key and every upstream:
  \<^verbatim>\<open>limit\<close> has no effect, on a discover query in particular.
\<close>

theorem limit_ignored:
  assumes "\<forall>k. k \<noteq> ''limit'' \<longrightarrow> qs_of ev k = qs_of ev' k"
  shows "handler key fetch ev = handler key fetch ev'"
  by (rule handler_cong) (simp_all add: assms)

theorem limit_ignored_witness:
  "handler (Some ''k'') upstream_results
     \<lparr>queryStringParameters = Some [''type'' \<mapsto> ''discover'', ''genre'' \<mapsto> ''878'', ''limit'' \<mapsto> ''20'']\<rparr>
   = handler (Some ''k'') upstream_results
     \<lparr>queryStringParameters = Some [''type'' \<mapsto> ''discover'', ''genre'' \<mapsto> ''878'', ''limit'' \<mapsto> ''5'']\<rparr>"
  using limit_ignored [of
      "\<lparr>queryStringParameters = Some [''type'' \<mapsto> ''discover'', ''genre'' \<mapsto> ''878'', ''limit'' \<mapsto> ''20'']\<rparr>"
      "\<lparr>queryStringParameters = Some [''type'' \<mapsto> ''discover'', ''genre'' \<mapsto> ''878'', ''limit'' \<mapsto> ''5'']\<rparr>"
      "Some ''k''" upstream_results]
  by (simp add: qs_of_def)

subsection \<open>The hover preview\<close>

text \<open>
  The delay of 350 ms is not part of the state: a timeout may fire at any moment while it
  is armed, and a request may settle at any moment while its callback is suspended.
\<close>

lemma cancelled_step:
  "cancelled h s \<Longrightarrow> step m e s = Some s' \<Longrightarrow> cancelled h s' \<and> e \<noteq> TimerFired h"
  by (cases e)
     (auto simp: cancelled_def mouseenter_def mouseleave_def timer_fired_def fetch_settled_def Let_def
           split: if_splits option.splits list.splits)

lemma cancelled_run:
  "cancelled h s \<Longrightarrow> run m es s = Some s' \<Longrightarrow> TimerFired h \<notin> set es"
proof (induction es arbitrary: s)
  case Nil
  then show ?case by simp
next
  case (Cons e es)
  from Cons.prems(2) obtain s1 where s1: "step m e s = Some s1" "run m es s1 = Some s'"
    by (auto split: option.splits)
  from cancelled_step [OF Cons.prems(1) s1(1)] have "cancelled h s1" "e \<noteq> TimerFired h"
    by simp_all
  with Cons.IH [OF _ s1(2)] show ?case by simp
qed

lemma cancelled_enter_leave: "cancelled (next_handle s) (mouseleave (mouseenter s))"
  by (simp add: cancelled_def mouseenter_def mouseleave_def Let_def split: list.splits)

lemma requested_enter_leave: "requested (mouseleave (mouseenter s)) = requested s"
  by (simp add: mouseenter_def mouseleave_def Let_def split: list.splits)

lemma run_append:
  "run m (es @ es') s = (case run m es s of None \<Rightarrow> None | Some s' \<Rightarrow> run m es' s')"
  by (induction es arbitrary: s) (auto split: option.splits)

lemma run_enter_leave: "run m [MouseEnter, MouseLeave] s = Some (mouseleave (mouseenter s))"
  by simp

lemma in_flight:
  assumes "idle s"
  shows "\<exists>s1. run m [MouseEnter, TimerFired (next_handle s)] s = Some s1
               \<and> requested s1 = requested s @ [videos_url m]
               \<and> next_handle s \<in> set (awaiting s1)
               \<and> (\<forall>r. \<exists>s2. run m [MouseLeave, FetchSettled (next_handle s) r] s1 = Some s2
                        \<and> preview_frames s2 = [] \<and> idle s2)"
  using assms
  by (simp add: idle_def mouseenter_def timer_fired_def mouseleave_def fetch_settled_def Let_def)

text \<open>
  Between a pointer-enter on an idle card and the next pointer-leave, the card holds the
  timeout of this hover, armed and without a frame, or fired and with its own frame
  alone. So the pointer-leave that ends the hover leaves the card idle again: every
  hover of a card whose pointer events alternate begins on an idle card.
\<close>

lemma hovering_enter: "idle s \<Longrightarrow> hovering (next_handle s) (mouseenter s)"
  by (simp add: idle_def hovering_def mouseenter_def)

lemma hovering_step:
  "hovering h s \<Longrightarrow> step m e s = Some s' \<Longrightarrow> e \<noteq> MouseEnter \<Longrightarrow> e \<noteq> MouseLeave \<Longrightarrow>
   hovering h s'"
  by (cases e) (auto simp: hovering_def timer_fired_def fetch_settled_def split: if_splits)

lemma hovering_run:
  "hovering h s \<Longrightarrow> run m es s = Some s' \<Longrightarrow> MouseEnter \<notin> set es \<Longrightarrow> MouseLeave \<notin> set es \<Longrightarrow>
   hovering h s'"
proof (induction es arbitrary: s)
  case Nil
  then show ?case by simp
next
  case (Cons e es)
  from Cons.prems(2) obtain s1 where s1: "step m e s = Some s1" "run m es s1 = Some s'"
    by (auto split: option.splits)
  from Cons.prems(3,4) have e: "e \<noteq> MouseEnter" "e \<noteq> MouseLeave"
    and es: "MouseEnter \<notin> set es" "MouseLeave \<notin> set es"
    by auto
  from Cons.prems(1) s1(1) e have "hovering h s1"
    by (rule hovering_step)
  from this s1(2) es show ?case
    by (rule Cons.IH)
qed

lemma hovering_leave: "hovering h s \<Longrightarrow> idle (mouseleave s)"
  by (auto simp: hovering_def idle_def mouseleave_def Let_def)

lemma hover_ends_idle:
  assumes "idle s" and "run m es (mouseenter s) = Some s'"
    and "MouseEnter \<notin> set es" and "MouseLeave \<notin> set es"
  shows "idle (mouseleave s')"
  using hovering_run [OF hovering_enter [OF assms(1)] assms(2,3,4)] by (rule hovering_leave)

text \<open>
  Claim C1. On every card, a pointer-enter followed by a pointer-leave before the timeout
  has fired requests nothing, and the timeout that was armed never fires afterwards,
  whatever happens to the card later. On an idle card, when the timeout does fire the
  request is made and is in flight; if the pointer then leaves and the request settles,
  with whatever answer, no preview frame is in the card and the card is idle.
\<close>

theorem hover_race:
  "(\<exists>s'. run m [MouseEnter, MouseLeave] s = Some s' \<and> requested s' = requested s
         \<and> (\<forall>es s''. run m es s' = Some s'' \<longrightarrow> TimerFired (next_handle s) \<notin> set es))
   \<and> (idle s \<longrightarrow>
        (\<exists>s1. run m [MouseEnter, TimerFired (next_handle s)] s = Some s1
               \<and> requested s1 = requested s @ [videos_url m]
               \<and> next_handle s \<in> set (awaiting s1)
               \<and> (\<forall>r. \<exists>s2. run m [MouseLeave, FetchSettled (next_handle s) r] s1 = Some s2
                        \<and> preview_frames s2 = [] \<and> idle s2)))"
proof (intro conjI impI)
  show "\<exists>s'. run m [MouseEnter, MouseLeave] s = Some s' \<and> requested s' = requested s
         \<and> (\<forall>es s''. run m es s' = Some s'' \<longrightarrow> TimerFired (next_handle s) \<notin> set es)"
  proof (intro exI conjI allI impI)
    show "run m [MouseEnter, MouseLeave] s = Some (mouseleave (mouseenter s))"
      by (rule run_enter_leave)
    show "requested (mouseleave (mouseenter s)) = requested s"
      by (rule requested_enter_leave)
    fix es s''
    assume "run m es (mouseleave (mouseenter s)) = Some s''"
    with cancelled_enter_leave show "TimerFired (next_handle s) \<notin> set es"
      by (rule cancelled_run)
  qed
next
  assume "idle s"
  then show "\<exists>s1. run m [MouseEnter, TimerFired (next_handle s)] s = Some s1
               \<and> requested s1 = requested s @ [videos_url m]
               \<and> next_handle s \<in> set (awaiting s1)
               \<and> (\<forall>r. \<exists>s2. run m [MouseLeave, FetchSettled (next_handle s) r] s1 = Some s2
                        \<and> preview_frames s2 = [] \<and> idle s2)"
    by (rule in_flight)
qed

theorem hover_race_witness:
  "idle hover_init
   \<and> run movie_example [MouseEnter, MouseLeave, TimerFired 0] hover_init = None
   \<and> (\<exists>s2. run movie_example [MouseEnter, TimerFired 0, MouseLeave, FetchSettled 0 videos_response]
              hover_init = Some s2
         \<and> preview_frames s2 = [] \<and> previewTimer s2 = None)"
proof -
  have i: "idle hover_init" by (simp add: idle_def hover_init_def)
  have n: "next_handle hover_init = 0" by (simp add: hover_init_def)
  from hover_race [of movie_example hover_init] i n
  obtain s1 where s1: "run movie_example [MouseEnter, TimerFired 0] hover_init = Some s1"
    and all: "\<forall>r. \<exists>s2. run movie_example [MouseLeave, FetchSettled 0 r] s1 = Some s2
                        \<and> preview_frames s2 = [] \<and> idle s2"
    by auto
  from all obtain s2 where s2: "run movie_example [MouseLeave, FetchSettled 0 videos_response] s1 = Some s2"
    "preview_frames s2 = []" "idle s2" by blast
  have "run movie_example ([MouseEnter, TimerFired 0] @ [MouseLeave, FetchSettled 0 videos_response])
          hover_init = Some s2"
    unfolding run_append s1 using s2(1) by simp
  then have "run movie_example [MouseEnter, TimerFired 0, MouseLeave, FetchSettled 0 videos_response]
          hover_init = Some s2"
    by simp
  moreover have "run movie_example [MouseEnter, MouseLeave, TimerFired 0] hover_init = None"
    by (simp add: hover_init_def mouseenter_def mouseleave_def timer_fired_def Let_def)
  ultimately show ?thesis using i s2 by (simp add: idle_def)
qed

subsection \<open>The selection of a video\<close>

lemma array_find_Some:
  "array_find p xs = Some v \<longleftrightarrow>
     (\<exists>before after. xs = before @ v # after \<and> p v \<and> (\<forall>u \<in> set before. \<not> p u))"
proof (induction xs)
  case Nil
  then show ?case by simp
next
  case (Cons x xs)
  show ?case
  proof (cases "p x")
    case True
    have "(\<exists>before after. x # xs = before @ v # after \<and> p v \<and> (\<forall>u \<in> set before. \<not> p u))
            \<longleftrightarrow> v = x"
    proof
      assume "\<exists>before after. x # xs = before @ v # after \<and> p v \<and> (\<forall>u \<in> set before. \<not> p u)"
      then obtain before after where
        e: "x # xs = before @ v # after" and n: "\<forall>u \<in> set before. \<not> p u" by blast
      show "v = x"
      proof (cases before)
        case Nil
        with e show ?thesis by simp
      next
        case (Cons b bs)
        with e have "b = x" by simp
        with Cons n True show ?thesis by simp
      qed
    next
      assume "v = x"
      with True have "x # xs = [] @ v # xs \<and> p v \<and> (\<forall>u \<in> set []. \<not> p u)" by simp
      then show "\<exists>before after. x # xs = before @ v # after \<and> p v \<and> (\<forall>u \<in> set before. \<not> p u)"
        by blast
    qed
    with True show ?thesis by auto
  next
    case False
    have "(\<exists>before after. x # xs = before @ v # after \<and> p v \<and> (\<forall>u \<in> set before. \<not> p u))
            \<longleftrightarrow> (\<exists>before after. xs = before @ v # after \<and> p v \<and> (\<forall>u \<in> set before. \<not> p u))"
    proof
      assume "\<exists>before after. x # xs = before @ v # after \<and> p v \<and> (\<forall>u \<in> set before. \<not> p u)"
      then obtain before after where
        e: "x # xs = before @ v # after" and pv: "p v" and n: "\<forall>u \<in> set before. \<not> p u"
        by blast
      show "\<exists>before after. xs = before @ v # after \<and> p v \<and> (\<forall>u \<in> set before. \<not> p u)"
      proof (cases before)
        case Nil
        with e pv False show ?thesis by simp
      next
        case (Cons b bs)
        with e n pv have "xs = bs @ v # after \<and> p v \<and> (\<forall>u \<in> set bs. \<not> p u)" by simp
        then show ?thesis by blast
      qed
    next
      assume "\<exists>before after. xs = before @ v # after \<and> p v \<and> (\<forall>u \<in> set before. \<not> p u)"
      then obtain before after where
        "xs = before @ v # after" "p v" "\<forall>u \<in> set before. \<not> p u" by blast
      with False have "x # xs = (x # before) @ v # after \<and> p v \<and> (\<forall>u \<in> set (x # before). \<not> p u)"
        by simp
      then show "\<exists>before after. x # xs = before @ v # after \<and> p v \<and> (\<forall>u \<in> set before. \<not> p u)"
        by blast
    qed
    with False Cons.IH show ?thesis by simp
  qed
qed

lemma array_find_None: "array_find p xs = None \<longleftrightarrow> (\<forall>u \<in> set xs. \<not> p u)"
  by (induction xs) auto

text \<open>
  Claim C6. The selection picks the first video of the list whose site is YouTube and
  whose type is Trailer or Teaser (hero), or Trailer, Teaser or Clip (card): a video is
  selected exactly when it is accepted and every video before it is rejected. Nothing
  is selected exactly when every video is rejected. On the list Vimeo Trailer, YouTube
  Teaser, YouTube Trailer the hero selects the Teaser.
\<close>

theorem preview_selection:
  "(hero_select d = Some v \<longleftrightarrow>
      (\<exists>before after. results_or_empty d = before @ v # after
         \<and> video_site v = ''YouTube'' \<and> video_type v \<in> {''Trailer'', ''Teaser''}
         \<and> (\<forall>u \<in> set before.
               \<not> (video_site u = ''YouTube'' \<and> video_type u \<in> {''Trailer'', ''Teaser''}))))
   \<and> (card_select d = Some v \<longleftrightarrow>
      (\<exists>before after. results_or_empty d = before @ v # after
         \<and> video_site v = ''YouTube'' \<and> video_type v \<in> {''Trailer'', ''Teaser'', ''Clip''}
         \<and> (\<forall>u \<in> set before.
               \<not> (video_site u = ''YouTube''
                  \<and> video_type u \<in> {''Trailer'', ''Teaser'', ''Clip''}))))
   \<and> (hero_select d = None \<longleftrightarrow>
      (\<forall>u \<in> set (results_or_empty d).
         \<not> (video_site u = ''YouTube'' \<and> video_type u \<in> {''Trailer'', ''Teaser''})))
   \<and> (card_select d = None \<longleftrightarrow>
      (\<forall>u \<in> set (results_or_empty d).
         \<not> (video_site u = ''YouTube'' \<and> video_type u \<in> {''Trailer'', ''Teaser'', ''Clip''})))
   \<and> hero_select \<lparr>results = Some
        [\<lparr>video_site = ''Vimeo'', video_type = ''Trailer'', video_key = k1\<rparr>,
         \<lparr>video_site = ''YouTube'', video_type = ''Teaser'', video_key = k2\<rparr>,
         \<lparr>video_site = ''YouTube'', video_type = ''Trailer'', video_key = k3\<rparr>]\<rparr>
       = Some \<lparr>video_site = ''YouTube'', video_type = ''Teaser'', video_key = k2\<rparr>"
proof -
  have h: "hero_accepts u \<longleftrightarrow>
             video_site u = ''YouTube'' \<and> video_type u \<in> {''Trailer'', ''Teaser''}" for u
    by (auto simp: hero_accepts_def)
  have c: "card_accepts u \<longleftrightarrow>
             video_site u = ''YouTube'' \<and> video_type u \<in> {''Trailer'', ''Teaser'', ''Clip''}" for u
    by (auto simp: card_accepts_def)
  have hero_some: "hero_select d = Some v \<longleftrightarrow>
      (\<exists>before after. results_or_empty d = before @ v # after
         \<and> video_site v = ''YouTube'' \<and> video_type v \<in> {''Trailer'', ''Teaser''}
         \<and> (\<forall>u \<in> set before.
               \<not> (video_site u = ''YouTube'' \<and> video_type u \<in> {''Trailer'', ''Teaser''})))"
    unfolding hero_select_def array_find_Some h by blast
  have card_some: "card_select d = Some v \<longleftrightarrow>
      (\<exists>before after. results_or_empty d = before @ v # after
         \<and> video_site v = ''YouTube'' \<and> video_type v \<in> {''Trailer'', ''Teaser'', ''Clip''}
         \<and> (\<forall>u \<in> set before.
               \<not> (video_site u = ''YouTube''
                  \<and> video_type u \<in> {''Trailer'', ''Teaser'', ''Clip''})))"
    unfolding card_select_def array_find_Some c by blast
  have hero_none: "hero_select d = None \<longleftrightarrow>
      (\<forall>u \<in> set (results_or_empty d).
         \<not> (video_site u = ''YouTube'' \<and> video_type u \<in> {''Trailer'', ''Teaser''}))"
    unfolding hero_select_def array_find_None h by (rule refl)
  have card_none: "card_select d = None \<longleftrightarrow>
      (\<forall>u \<in> set (results_or_empty d).
         \<not> (video_site u = ''YouTube'' \<and> video_type u \<in> {''Trailer'', ''Teaser'', ''Clip''}))"
    unfolding card_select_def array_find_None c by (rule refl)
  have example: "hero_select \<lparr>results = Some
        [\<lparr>video_site = ''Vimeo'', video_type = ''Trailer'', video_key = k1\<rparr>,
         \<lparr>video_site = ''YouTube'', video_type = ''Teaser'', video_key = k2\<rparr>,
         \<lparr>video_site = ''YouTube'', video_type = ''Trailer'', video_key = k3\<rparr>]\<rparr>
       = Some \<lparr>video_site = ''YouTube'', video_type = ''Teaser'', video_key = k2\<rparr>"
    by (simp add: hero_select_def results_or_empty_def hero_accepts_def)
  from hero_some card_some hero_none card_none example show ?thesis
    by (intro conjI)
qed

theorem preview_selection_witness:
  "hero_select \<lparr>results = Some videos_example\<rparr>
     = Some \<lparr>video_site = ''YouTube'', video_type = ''Teaser'', video_key = ''y2''\<rparr>
   \<and> hero_select \<lparr>results = Some
        [\<lparr>video_site = ''YouTube'', video_type = ''Clip'', video_key = ''c''\<rparr>]\<rparr> = None
   \<and> card_select \<lparr>results = Some
        [\<lparr>video_site = ''YouTube'', video_type = ''Clip'', video_key = ''c''\<rparr>]\<rparr>
     = Some \<lparr>video_site = ''YouTube'', video_type = ''Clip'', video_key = ''c''\<rparr>"
proof -
  let ?clip = "\<lparr>video_site = ''YouTube'', video_type = ''Clip'', video_key = ''c''\<rparr>"
  note t = preview_selection [of "\<lparr>results = Some [?clip]\<rparr>" ?clip "''v1''" "''y2''" "''y3''"]
  have 1: "hero_select \<lparr>results = Some videos_example\<rparr>
     = Some \<lparr>video_site = ''YouTube'', video_type = ''Teaser'', video_key = ''y2''\<rparr>"
    using t by (simp only: videos_example_def)
  have 2: "hero_select \<lparr>results = Some [?clip]\<rparr> = None"
    using t by (simp add: results_or_empty_def)
  have "results_or_empty \<lparr>results = Some [?clip]\<rparr> = [] @ ?clip # []"
    by (simp add: results_or_empty_def)
  then have 3: "card_select \<lparr>results = Some [?clip]\<rparr> = Some ?clip"
    using t by fastforce
  from 1 2 3 show ?thesis by (intro conjI)
qed

subsection \<open>The hero\<close>







subsection \<open>The rows\<close>

lemma makeRows_rows:
  "rowsContainer (makeRows fetch gs d) =
     rowsContainer d @
       map (\<lambda>g. \<lparr>row_title = genre_name g,
                 track = row_track g (tmdbFetch_settle (fetch (row_url g)))\<rparr>) gs"
  by (induction gs arbitrary: d) (simp_all add: makeRow_def Let_def)

lemma makeRows_fetched: "fetched (makeRows fetch gs d) = fetched d @ map row_url gs"
  by (induction gs arbitrary: d) (simp_all add: makeRow_def Let_def)

lemma row_urls:
  "map row_url GENRES =
     [''/.netlify/functions/tmdb?type=discover&genre=878&limit=20'',
      ''/.netlify/functions/tmdb?type=discover&genre=528&limit=20'',
      ''/.netlify/functions/tmdb?type=discover&genre=18&limit=20'',
      ''/.netlify/functions/tmdb?type=discover&genre=27&limit=20'',
      ''/.netlify/functions/tmdb?type=discover&genre=35&limit=20'']"
  by code_simp

lemma row_track_Returns:
  "row_track g (Returns dat) = map (\<lambda>m. Card (createPosterCard m)) (results_or_empty dat)"
  by (simp add: row_track_def)

lemma row_track_Throws: "row_track g (Throws msg) = [Message (''Failed to load '' @ genre_name g)]"
  by (simp add: row_track_def)

text \<open>
  The two halves of \<^verbatim>\<open>makeRow\<close> together are \<^verbatim>\<open>makeRow\<close>, and a row looks at no
  answer but its own. Hence the loop run event by event requests each genre when the
  answer before it arrives, and ends in the document of the loop run in one go.
\<close>

lemma makeRow_halves:
  "makeRow_end g (length (rowsContainer d)) (tmdbFetch_settle (fetch (row_url g)))
     (makeRow_begin g d) = makeRow fetch g d"
  by (simp add: makeRow_end_def makeRow_begin_def makeRow_def Let_def row_track_def
      split: js_result.splits)


lemma makeRow_end_begin:
  "makeRow_end g (length (rowsContainer d)) (tmdbFetch_settle r) (makeRow_begin g d)
     = makeRow (\<lambda>u. r) g d"
  by (rule makeRow_halves [of g d "\<lambda>u. r"])

lemma makeRow_only_own_answer: "makeRow (\<lambda>u. fetch (row_url g)) g d = makeRow fetch g d"
  by (simp add: makeRow_def)

lemma makeRow_fetched: "fetched (makeRow fetch g d) = fetched d @ [row_url g]"
  by (simp add: makeRow_def Let_def)

lemma makeRow_length: "length (rowsContainer (makeRow fetch g d)) = Suc (length (rowsContainer d))"
  by (simp add: makeRow_def Let_def)

lemma row_settles_pending:
  assumes "pending s = Some (g, length (rowsContainer d))" and "page s = makeRow_begin g d"
    and "clock s \<le> t"
  shows "row_settles t r s = Some (next_row t (s\<lparr>page := makeRow (\<lambda>u. r) g d\<rparr>))"
  using assms by (simp add: row_settles_def makeRow_end_begin)

lemma loading_run:
  assumes "length as \<le> length gs" and "sorted (t # map fst as)"
    and "remaining s0 = gs" and "gs \<noteq> []"
  shows "\<exists>s. run_loading as (next_row t s0) = Some s
           \<and> issued s = issued s0 @ zip (map row_url gs) (t # map fst as)
           \<and> (length as < length gs \<longrightarrow>
                 pending s = Some (gs ! length as, length (rowsContainer (page s0)) + length as)
                 \<and> fetched (page s) =
                     fetched (page s0) @ map row_url (take (Suc (length as)) gs))
           \<and> (length as = length gs \<longrightarrow>
                 pending s = None
                 \<and> (\<forall>fetch. map snd as = map (\<lambda>g. fetch (row_url g)) gs \<longrightarrow>
                       page s = makeRows fetch gs (page s0)))"
  using assms
proof (induction as arbitrary: t s0 gs)
  case Nil
  then obtain g gs' where gs: "gs = g # gs'" by (cases gs) auto
  with Nil show ?case
    by (simp add: next_row_def makeRow_begin_def)
next
  case (Cons a as)
  obtain t1 r where a: "a = (t1, r)" by (cases a)
  from Cons.prems obtain g gs' where gs: "gs = g # gs'" by (cases gs) auto
  let ?d = "page s0"
  let ?s1 = "next_row t s0"
  have s1: "pending ?s1 = Some (g, length (rowsContainer ?d))" "page ?s1 = makeRow_begin g ?d"
    "clock ?s1 = t" "remaining ?s1 = gs'" "issued ?s1 = issued s0 @ [(row_url g, t)]"
    using Cons.prems(3) gs by (simp_all add: next_row_def)
  from Cons.prems(2) a have le: "t \<le> t1" and sorted': "sorted (t1 # map fst as)"
    by simp_all
  let ?s2 = "?s1\<lparr>page := makeRow (\<lambda>u. r) g ?d\<rparr>"
  have step: "row_settles t1 r ?s1 = Some (next_row t1 ?s2)"
    using s1(1,2) le by (intro row_settles_pending) (simp_all add: s1(3))
  have s2: "remaining ?s2 = gs'" "issued ?s2 = issued s0 @ [(row_url g, t)]"
    "page ?s2 = makeRow (\<lambda>u. r) g ?d"
    using s1 by simp_all
  show ?case
  proof (cases gs')
    case Nil
    with Cons.prems(1) gs have as: "as = []" by simp
    show ?thesis
      using step s2 Nil
      by (auto simp: a as gs next_row_def makeRow_only_own_answer)
  next
    case (Cons g' gs'')
    from Cons.prems(1) gs have len: "length as \<le> length gs'" by simp
    have ne: "gs' \<noteq> []" using Cons by simp
    from Cons.IH [OF len sorted' s2(1) ne]
    obtain s where s: "run_loading as (next_row t1 ?s2) = Some s"
      and iss: "issued s = issued ?s2 @ zip (map row_url gs') (t1 # map fst as)"
      and lt: "length as < length gs' \<longrightarrow>
                 pending s = Some (gs' ! length as, length (rowsContainer (page ?s2)) + length as)
                 \<and> fetched (page s) =
                     fetched (page ?s2) @ map row_url (take (Suc (length as)) gs')"
      and eq: "length as = length gs' \<longrightarrow>
                 pending s = None
                 \<and> (\<forall>fetch. map snd as = map (\<lambda>g. fetch (row_url g)) gs' \<longrightarrow>
                       page s = makeRows fetch gs' (page ?s2))"
      by blast
    have run: "run_loading (a # as) (next_row t s0) = Some s"
      using step s by (simp add: a)
    have 1: "issued s = issued s0 @ zip (map row_url gs) (t # map fst (a # as))"
      using iss by (simp add: s2(2) gs a)
    have 2: "length (a # as) < length gs \<longrightarrow>
                 pending s = Some (gs ! length (a # as),
                                   length (rowsContainer (page s0)) + length (a # as))
                 \<and> fetched (page s) =
                     fetched (page s0) @ map row_url (take (Suc (length (a # as))) gs)"
      using lt by (simp add: gs s2(3) makeRow_length makeRow_fetched)
    have 3: "length (a # as) = length gs \<longrightarrow>
                 pending s = None
                 \<and> (\<forall>fetch. map snd (a # as) = map (\<lambda>g. fetch (row_url g)) gs \<longrightarrow>
                       page s = makeRows fetch gs (page s0))"
      using eq by (auto simp: gs a s2(3) makeRow_only_own_answer)
    from run 1 2 3 show ?thesis by blast
  qed
qed


lemma init_start_run:
  assumes "length as \<le> length GENRES" and "sorted (t0 # map fst as)"
  shows "\<exists>s. run_loading as (init_start t0 d) = Some s
           \<and> issued s = zip (map row_url GENRES) (t0 # map fst as)
           \<and> (length as < length GENRES \<longrightarrow>
                 pending s = Some (GENRES ! length as, length (rowsContainer d) + length as)
                 \<and> fetched (page s) = fetched d @ map row_url (take (Suc (length as)) GENRES))
           \<and> (length as = length GENRES \<longrightarrow>
                 pending s = None
                 \<and> (\<forall>fetch. map snd as = map (\<lambda>g. fetch (row_url g)) GENRES \<longrightarrow>
                       page s = init_rows fetch d))"
proof -
  let ?s0 = "\<lparr>page = d, pending = None, remaining = GENRES, issued = [], clock = t0\<rparr>"
  have "remaining ?s0 = GENRES" "GENRES \<noteq> []"
    by (simp_all add: GENRES_def)
  from loading_run [OF assms this] show ?thesis
    by (simp add: init_start_def init_rows_def)
qed

text \<open>
  Claim C8, as amended. Whatever the answers to the five discover requests are, the loop
  appends one row for each genre, in the declared order and after the rows already
  there. The row of a genre shows one card for each result when its own request
  succeeded, and the message \<^verbatim>\<open>Failed to load\<close> with the genre's name when its own
  request failed; the answers of the other genres play no part, and no failure stops the
  loop: all five requests are made, in the declared order, and their URLs differ, so
  every assignment of answers to genres can occur. The rows are loaded one after the
  other: the first request is made when the loop starts, and the request of every later
  genre is made at the moment the answer for the genre before it arrives, whatever that
  answer is. While an answer is awaited no later genre has been requested, so a genre
  whose request is slow to fail, or to succeed, holds back all the genres after it. When
  all five answers have arrived the document is that of the loop run in one go.
\<close>

theorem rows_isolated:
  "length (rowsContainer (init_rows fetch d)) = length (rowsContainer d) + length GENRES
   \<and> take (length (rowsContainer d)) (rowsContainer (init_rows fetch d)) = rowsContainer d
   \<and> (\<forall>i < length GENRES.
        row_title (rowsContainer (init_rows fetch d) ! (length (rowsContainer d) + i))
          = genre_name (GENRES ! i)
        \<and> (\<forall>dat. tmdbFetch_settle (fetch (row_url (GENRES ! i))) = Returns dat \<longrightarrow>
              track (rowsContainer (init_rows fetch d) ! (length (rowsContainer d) + i))
                = map (\<lambda>m. Card (createPosterCard m)) (results_or_empty dat))
        \<and> (\<forall>msg. tmdbFetch_settle (fetch (row_url (GENRES ! i))) = Throws msg \<longrightarrow>
              track (rowsContainer (init_rows fetch d) ! (length (rowsContainer d) + i))
                = [Message (''Failed to load '' @ genre_name (GENRES ! i))]))
   \<and> fetched (init_rows fetch d) = fetched d @ map row_url GENRES
   \<and> distinct (map row_url GENRES)
   \<and> (\<forall>as t0. length as \<le> length GENRES \<and> sorted (t0 # map fst as) \<longrightarrow>
         (\<exists>s. run_loading as (init_start t0 d) = Some s
              \<and> issued s = zip (map row_url GENRES) (t0 # map fst as)
              \<and> (length as < length GENRES \<longrightarrow>
                    pending s = Some (GENRES ! length as, length (rowsContainer d) + length as)
                    \<and> fetched (page s) =
                        fetched d @ map row_url (take (Suc (length as)) GENRES))
              \<and> (length as = length GENRES \<longrightarrow>
                    pending s = None
                    \<and> (map snd as = map (\<lambda>g. fetch (row_url g)) GENRES \<longrightarrow>
                          page s = init_rows fetch d))))"
proof -
  let ?rows = "rowsContainer (init_rows fetch d)"
  let ?n = "length (rowsContainer d)"
  have rows: "?rows = rowsContainer d @
       map (\<lambda>g. \<lparr>row_title = genre_name g,
                 track = row_track g (tmdbFetch_settle (fetch (row_url g)))\<rparr>) GENRES"
    by (simp add: init_rows_def makeRows_rows)
  have p1: "length ?rows = ?n + length GENRES"
    by (simp add: rows)
  have p2: "take ?n ?rows = rowsContainer d"
    by (simp add: rows)
  have p3: "\<forall>i < length GENRES.
        row_title (?rows ! (?n + i)) = genre_name (GENRES ! i)
        \<and> (\<forall>dat. tmdbFetch_settle (fetch (row_url (GENRES ! i))) = Returns dat \<longrightarrow>
              track (?rows ! (?n + i))
                = map (\<lambda>m. Card (createPosterCard m)) (results_or_empty dat))
        \<and> (\<forall>msg. tmdbFetch_settle (fetch (row_url (GENRES ! i))) = Throws msg \<longrightarrow>
              track (?rows ! (?n + i))
                = [Message (''Failed to load '' @ genre_name (GENRES ! i))])"
  proof (intro allI impI conjI)
    fix i
    assume i: "i < length GENRES"
    then have nth: "?rows ! (?n + i) =
        \<lparr>row_title = genre_name (GENRES ! i),
         track = row_track (GENRES ! i) (tmdbFetch_settle (fetch (row_url (GENRES ! i))))\<rparr>"
      by (simp add: rows nth_append)
    show "row_title (?rows ! (?n + i)) = genre_name (GENRES ! i)"
      by (simp add: nth)
    show "track (?rows ! (?n + i)) = map (\<lambda>m. Card (createPosterCard m)) (results_or_empty dat)"
      if "tmdbFetch_settle (fetch (row_url (GENRES ! i))) = Returns dat" for dat
      using that by (simp add: nth row_track_Returns)
    show "track (?rows ! (?n + i)) = [Message (''Failed to load '' @ genre_name (GENRES ! i))]"
      if "tmdbFetch_settle (fetch (row_url (GENRES ! i))) = Throws msg" for msg
      using that by (simp add: nth row_track_Throws)
  qed
  have p4: "fetched (init_rows fetch d) = fetched d @ map row_url GENRES"
    by (simp add: init_rows_def makeRows_fetched)
  have p5: "distinct (map row_url GENRES)"
    by (simp add: row_urls)
  have p6: "\<forall>as t0. length as \<le> length GENRES \<and> sorted (t0 # map fst as) \<longrightarrow>
         (\<exists>s. run_loading as (init_start t0 d) = Some s
              \<and> issued s = zip (map row_url GENRES) (t0 # map fst as)
              \<and> (length as < length GENRES \<longrightarrow>
                    pending s = Some (GENRES ! length as, length (rowsContainer d) + length as)
                    \<and> fetched (page s) =
                        fetched d @ map row_url (take (Suc (length as)) GENRES))
              \<and> (length as = length GENRES \<longrightarrow>
                    pending s = None
                    \<and> (map snd as = map (\<lambda>g. fetch (row_url g)) GENRES \<longrightarrow>
                          page s = init_rows fetch d)))"
  proof (intro allI impI)
    fix as :: "(nat \<times> movie data response js_result) list" and t0 :: nat
    assume a: "length as \<le> length GENRES \<and> sorted (t0 # map fst as)"
    then have "length as \<le> length GENRES" and "sorted (t0 # map fst as)"
      by simp_all
    from init_start_run [OF this, of d] obtain s where
      "run_loading as (init_start t0 d) = Some s"
      "issued s = zip (map row_url GENRES) (t0 # map fst as)"
      "length as < length GENRES \<longrightarrow>
         pending s = Some (GENRES ! length as, length (rowsContainer d) + length as)
         \<and> fetched (page s) = fetched d @ map row_url (take (Suc (length as)) GENRES)"
      "length as = length GENRES \<longrightarrow>
         pending s = None
         \<and> (\<forall>fetch. map snd as = map (\<lambda>g. fetch (row_url g)) GENRES \<longrightarrow>
               page s = init_rows fetch d)"
      by blast
    then show "\<exists>s. run_loading as (init_start t0 d) = Some s
              \<and> issued s = zip (map row_url GENRES) (t0 # map fst as)
              \<and> (length as < length GENRES \<longrightarrow>
                    pending s = Some (GENRES ! length as, length (rowsContainer d) + length as)
                    \<and> fetched (page s) =
                        fetched d @ map row_url (take (Suc (length as)) GENRES))
              \<and> (length as = length GENRES \<longrightarrow>
                    pending s = None
                    \<and> (map snd as = map (\<lambda>g. fetch (row_url g)) GENRES \<longrightarrow>
                          page s = init_rows fetch d))"
      by blast
  qed
  from p1 p2 p3 p4 p5 p6 show ?thesis
    by (intro conjI)
qed

lemma GENRES_nth:
  "length GENRES = 5"
  "genre_name (GENRES ! Suc 0) = ''Food''"
  by (simp_all add: GENRES_def)

lemma row_url_examples:
  "row_url (GENRES ! 0) = ''/.netlify/functions/tmdb?type=discover&genre=878&limit=20''"
  "row_url (GENRES ! Suc 0) = ''/.netlify/functions/tmdb?type=discover&genre=528&limit=20''"
  "row_url (GENRES ! 2) = ''/.netlify/functions/tmdb?type=discover&genre=18&limit=20''"
  by code_simp+

theorem rows_isolated_witness:
  "track (rowsContainer (init_rows rows_food_fails document_empty) ! 0)
     = [Card (createPosterCard movie_example)]
   \<and> track (rowsContainer (init_rows rows_food_fails document_empty) ! 1)
     = [Message ''Failed to load Food'']
   \<and> track (rowsContainer (init_rows rows_food_fails document_empty) ! 2)
     = [Card (createPosterCard movie_example)]
   \<and> (\<exists>s. run_loading [(100, answer_one_movie), (30000, answer_500)]
              (init_start 0 document_empty) = Some s
         \<and> issued s =
             [(''/.netlify/functions/tmdb?type=discover&genre=878&limit=20'', 0),
              (''/.netlify/functions/tmdb?type=discover&genre=528&limit=20'', 100),
              (''/.netlify/functions/tmdb?type=discover&genre=18&limit=20'', 30000)])"
proof -
  note t = rows_isolated [where fetch = rows_food_fails and d = document_empty]
  have n: "length (rowsContainer document_empty) = 0"
    by (simp add: document_empty_def)
  have 0: "tmdbFetch_settle (rows_food_fails (row_url (GENRES ! 0)))
             = Returns \<lparr>results = Some [movie_example]\<rparr>"
    by (simp add: row_url_examples rows_food_fails_def tmdbFetch_settle_def ok_def)
  have 1: "tmdbFetch_settle (rows_food_fails (row_url (GENRES ! 1)))
             = Throws ''TMDb function error''"
    by (simp add: row_url_examples rows_food_fails_def tmdbFetch_settle_def ok_def)
  have 2: "tmdbFetch_settle (rows_food_fails (row_url (GENRES ! 2)))
             = Returns \<lparr>results = Some [movie_example]\<rparr>"
    by (simp add: row_url_examples rows_food_fails_def tmdbFetch_settle_def ok_def)
  from t have a: "\<forall>i < length GENRES.
        (\<forall>dat. tmdbFetch_settle (rows_food_fails (row_url (GENRES ! i))) = Returns dat \<longrightarrow>
              track (rowsContainer (init_rows rows_food_fails document_empty) ! i)
                = map (\<lambda>m. Card (createPosterCard m)) (results_or_empty dat))
        \<and> (\<forall>msg. tmdbFetch_settle (rows_food_fails (row_url (GENRES ! i))) = Throws msg \<longrightarrow>
              track (rowsContainer (init_rows rows_food_fails document_empty) ! i)
                = [Message (''Failed to load '' @ genre_name (GENRES ! i))])"
    by (simp add: n)
  from a 0 have r0: "track (rowsContainer (init_rows rows_food_fails document_empty) ! 0)
     = [Card (createPosterCard movie_example)]"
    by (simp add: GENRES_nth(1) results_or_empty_def)
  from a 1 have r1: "track (rowsContainer (init_rows rows_food_fails document_empty) ! 1)
     = [Message ''Failed to load Food'']"
    by (simp add: GENRES_nth results_or_empty_def)
  from a 2 have r2: "track (rowsContainer (init_rows rows_food_fails document_empty) ! 2)
     = [Card (createPosterCard movie_example)]"
    by (simp add: GENRES_nth(1) results_or_empty_def)
  let ?as = "[(100::nat, answer_one_movie), (30000, answer_500)]"
  from t have seq: "length ?as \<le> length GENRES \<and> sorted ((0::nat) # map fst ?as) \<longrightarrow>
         (\<exists>s. run_loading ?as (init_start 0 document_empty) = Some s
              \<and> issued s = zip (map row_url GENRES) (0 # map fst ?as))"
    by blast
  have "length ?as \<le> length GENRES \<and> sorted ((0::nat) # map fst ?as)"
    by (simp add: GENRES_nth(1))
  with seq obtain s where
    "run_loading ?as (init_start 0 document_empty) = Some s"
    "issued s = zip (map row_url GENRES) (0 # map fst ?as)"
    by blast
  then have r3: "\<exists>s. run_loading ?as (init_start 0 document_empty) = Some s
         \<and> issued s =
             [(''/.netlify/functions/tmdb?type=discover&genre=878&limit=20'', 0),
              (''/.netlify/functions/tmdb?type=discover&genre=528&limit=20'', 100),
              (''/.netlify/functions/tmdb?type=discover&genre=18&limit=20'', 30000)]"
    by (simp add: row_urls)
  from r0 r1 r2 r3 show ?thesis by (intro conjI)
qed

text \<open>
  The loop starts at time 0 and the answer for the first genre arrives at 100. When the
  request for the second genre fails at 200, the third genre is requested at 200; when
  it fails at 30000 instead, the third genre is requested at 30000 and not before.
\<close>

theorem rows_isolated_counterexample:
  "tmdbFetch_settle answer_500 = Throws ''TMDb function error''
   \<and> map_option issued
       (run_loading [(100, answer_one_movie), (200, answer_500)] (init_start 0 document_empty))
     = Some [(''/.netlify/functions/tmdb?type=discover&genre=878&limit=20'', 0),
             (''/.netlify/functions/tmdb?type=discover&genre=528&limit=20'', 100),
             (''/.netlify/functions/tmdb?type=discover&genre=18&limit=20'', 200)]
   \<and> map_option issued
       (run_loading [(100, answer_one_movie), (30000, answer_500)] (init_start 0 document_empty))
     = Some [(''/.netlify/functions/tmdb?type=discover&genre=878&limit=20'', 0),
             (''/.netlify/functions/tmdb?type=discover&genre=528&limit=20'', 100),
             (''/.netlify/functions/tmdb?type=discover&genre=18&limit=20'', 30000)]
   \<and> map_option issued (run_loading [(100, answer_one_movie)] (init_start 0 document_empty))
     = Some [(''/.netlify/functions/tmdb?type=discover&genre=878&limit=20'', 0),
             (''/.netlify/functions/tmdb?type=discover&genre=528&limit=20'', 100)]"
proof -
  have issued_after:
    "map_option issued (run_loading as (init_start 0 document_empty))
       = Some (zip (map row_url GENRES) (0 # map fst as))"
    if "length as \<le> length GENRES" and "sorted (0 # map fst as)" for as
    using init_start_run [OF that, of document_empty] by auto
  have 1: "tmdbFetch_settle answer_500 = Throws ''TMDb function error''"
    by (simp add: answer_500_def tmdbFetch_settle_def ok_def)
  have "map_option issued
       (run_loading [(100, answer_one_movie), (200, answer_500)] (init_start 0 document_empty))
     = Some (zip (map row_url GENRES)
               (0 # map fst [(100::nat, answer_one_movie), (200, answer_500)]))"
    by (rule issued_after) (simp_all add: GENRES_nth(1))
  then have 2: "map_option issued
       (run_loading [(100, answer_one_movie), (200, answer_500)] (init_start 0 document_empty))
     = Some [(''/.netlify/functions/tmdb?type=discover&genre=878&limit=20'', 0),
             (''/.netlify/functions/tmdb?type=discover&genre=528&limit=20'', 100),
             (''/.netlify/functions/tmdb?type=discover&genre=18&limit=20'', 200)]"
    by (simp add: row_urls del: run_loading.simps)
  have "map_option issued
       (run_loading [(100, answer_one_movie), (30000, answer_500)] (init_start 0 document_empty))
     = Some (zip (map row_url GENRES)
               (0 # map fst [(100::nat, answer_one_movie), (30000, answer_500)]))"
    by (rule issued_after) (simp_all add: GENRES_nth(1))
  then have 3: "map_option issued
       (run_loading [(100, answer_one_movie), (30000, answer_500)] (init_start 0 document_empty))
     = Some [(''/.netlify/functions/tmdb?type=discover&genre=878&limit=20'', 0),
             (''/.netlify/functions/tmdb?type=discover&genre=528&limit=20'', 100),
             (''/.netlify/functions/tmdb?type=discover&genre=18&limit=20'', 30000)]"
    by (simp add: row_urls del: run_loading.simps)
  have "map_option issued (run_loading [(100, answer_one_movie)] (init_start 0 document_empty))
     = Some (zip (map row_url GENRES) (0 # map fst [(100::nat, answer_one_movie)]))"
    by (rule issued_after) (simp_all add: GENRES_nth(1))
  then have 4: "map_option issued
       (run_loading [(100, answer_one_movie)] (init_start 0 document_empty))
     = Some [(''/.netlify/functions/tmdb?type=discover&genre=878&limit=20'', 0),
             (''/.netlify/functions/tmdb?type=discover&genre=528&limit=20'', 100)]"
    by (simp add: row_urls del: run_loading.simps)
  from 1 2 3 4 show ?thesis by (intro conjI)
qed

end
